theory Spec2Isabelle
  imports Main "HOL-Library.Word"
begin

section \<open>The post-receive hook of the githook controller\<close>

text \<open>
  A shallow embedding of \<^verbatim>\<open>app/api/controller/githook/post_receive.go\<close>.
  The collaborators of the controller (access check, pull-request store, URL provider)
  are fields of the record \<open>Controller\<close>; the calls the hook makes to the event reporter,
  to the pull-request store and to the logger are recorded, in order, in the record
  \<open>world\<close>. A Go run-time panic (index or slice out of range) is the value \<open>None\<close>.
\<close>

subsection \<open>Data\<close>

type_synonym int64 = "64 word"

text \<open>Go's \<^verbatim>\<open>error\<close> values, by their message.\<close>

datatype error = Error string

text \<open>\<^verbatim>\<open>githook.ReferenceUpdate\<close>, \<^verbatim>\<open>githook.PostReceiveInput\<close> and
  \<^verbatim>\<open>githook.Output\<close>, by the fields the hook reads and writes.\<close>

record ReferenceUpdate =
  Ref :: string
  Old :: string
  New :: string

record PostReceiveInput =
  RefUpdates :: "ReferenceUpdate list"

record Output =
  Messages :: "string list"

text \<open>\<^verbatim>\<open>types.Repository\<close> and \<^verbatim>\<open>types.PullReq\<close>, by the fields the hook reads.\<close>

record Repository =
  ID :: int64
  Path :: string
  DefaultBranch :: string

record PullReq =
  Number :: int64
  Title :: string

datatype PullReqState = PullReqStateOpen | PullReqStateMerged | PullReqStateClosed

datatype Order = OrderDefault | OrderAsc | OrderDesc

datatype PullReqSort = PullReqSortNone | PullReqSortNumber | PullReqSortCreated

datatype Permission = PermissionRepoView | PermissionRepoEdit

record PullReqFilter =
  Page :: int
  Size :: int
  SourceRepoID :: int64
  SourceBranch :: string
  States :: "PullReqState list"
  Order :: Order
  Sort :: PullReqSort

text \<open>The six payloads of the event reporter; one constructor for each reporter method.\<close>

datatype event =
    BranchCreated (RepoID: int64) (PrincipalID: int64) (EventRef: string) (SHA: string)
  | BranchDeleted (RepoID: int64) (PrincipalID: int64) (EventRef: string) (SHA: string)
  | BranchUpdated (RepoID: int64) (PrincipalID: int64) (EventRef: string)
      (OldSHA: string) (NewSHA: string) (Forced: bool)
  | TagCreated (RepoID: int64) (PrincipalID: int64) (EventRef: string) (SHA: string)
  | TagDeleted (RepoID: int64) (PrincipalID: int64) (EventRef: string) (SHA: string)
  | TagUpdated (RepoID: int64) (PrincipalID: int64) (EventRef: string)
      (OldSHA: string) (NewSHA: string) (Forced: bool)

text \<open>A warning written to the logger: the attached error and the message.\<close>

datatype log_entry = Warn error string

record world =
  dispatched :: "event list"
  lookups :: "PullReqFilter list"
  logs :: "log_entry list"

record 's Controller =
  getRepoCheckAccess :: "'s \<Rightarrow> int64 \<Rightarrow> Permission \<Rightarrow> error + Repository"
  pullreqStore_List :: "PullReqFilter \<Rightarrow> error + PullReq list"
  GenerateUIPRURL :: "string \<Rightarrow> int64 \<Rightarrow> string"
  GenerateUICompareURL :: "string \<Rightarrow> string \<Rightarrow> string \<Rightarrow> string"

subsection \<open>Constants and library functions\<close>

definition gitReferenceNamePrefixBranch :: string where
  "gitReferenceNamePrefixBranch = ''refs/heads/''"

definition gitReferenceNamePrefixTag :: string where
  "gitReferenceNamePrefixTag = ''refs/tags/''"

text \<open>Modelled from the spec: \<^verbatim>\<open>types.NilSHA\<close> is declared in package types, outside this controller;
  the spec calls it "a distinguished all-zero SHA constant", the sentinel for "does not
  exist". No proof below depends on its length.\<close>

definition NilSHA :: string where
  "NilSHA = ''0000000000000000000000000000000000000000''"

text \<open>\<^verbatim>\<open>strings.HasPrefix(s, prefix)\<close>.\<close>

definition HasPrefix :: "string \<Rightarrow> string \<Rightarrow> bool" where
  "HasPrefix s p = (length p \<le> length s \<and> take (length p) s = p)"

text \<open>The slice expression \<^verbatim>\<open>s[n:]\<close>, which panics when \<open>n\<close> exceeds the length.\<close>

definition slice_from :: "string \<Rightarrow> nat \<Rightarrow> string option" where
  "slice_from s n = (if n \<le> length s then Some (drop n s) else None)"

text \<open>The assignment \<^verbatim>\<open>xs[i] = v\<close>, which panics when \<open>i\<close> is out of range.\<close>

definition set_index :: "'a list \<Rightarrow> nat \<Rightarrow> 'a \<Rightarrow> 'a list option" where
  "set_index xs i v = (if i < length xs then Some (xs[i := v]) else None)"

text \<open>The verb \<^verbatim>\<open>%d\<close> of \<^verbatim>\<open>fmt.Sprintf\<close> at an \<^verbatim>\<open>int64\<close>: signed decimal.\<close>

definition digit_char :: "nat \<Rightarrow> char" where
  "digit_char d = char_of (48 + d)"

function nat_to_dec :: "nat \<Rightarrow> string" where
  "nat_to_dec n = (if n < 10 then [digit_char n] else nat_to_dec (n div 10) @ [digit_char (n mod 10)])"
  by pat_completeness auto
termination
  by (relation "measure id") auto

definition fmt_d :: "int64 \<Rightarrow> string" where
  "fmt_d x = (if sint x < 0 then CHR ''-'' # nat_to_dec (nat (- sint x)) else nat_to_dec (nat (sint x)))"

subsection \<open>Reporting reference events\<close>

text \<open>A call of a method of \<^verbatim>\<open>c.gitReporter\<close>. The methods return nothing: whether the
  reporter managed to publish the event is not visible to the hook.\<close>

definition gitReporter :: "event \<Rightarrow> world \<Rightarrow> world" where
  "gitReporter e w = w\<lparr>dispatched := dispatched w @ [e]\<rparr>"

definition reportBranchEvent :: "int64 \<Rightarrow> int64 \<Rightarrow> ReferenceUpdate \<Rightarrow> world \<Rightarrow> world" where
  "reportBranchEvent repoID principalID branchUpdate w =
     (if Old branchUpdate = NilSHA then
        gitReporter (BranchCreated repoID principalID (Ref branchUpdate) (New branchUpdate)) w
      else if New branchUpdate = NilSHA then
        gitReporter (BranchDeleted repoID principalID (Ref branchUpdate) (Old branchUpdate)) w
      else
        gitReporter (BranchUpdated repoID principalID (Ref branchUpdate)
          (Old branchUpdate) (New branchUpdate) False) w)"

definition reportTagEvent :: "int64 \<Rightarrow> int64 \<Rightarrow> ReferenceUpdate \<Rightarrow> world \<Rightarrow> world" where
  "reportTagEvent repoID principalID tagUpdate w =
     (if Old tagUpdate = NilSHA then
        gitReporter (TagCreated repoID principalID (Ref tagUpdate) (New tagUpdate)) w
      else if New tagUpdate = NilSHA then
        gitReporter (TagDeleted repoID principalID (Ref tagUpdate) (Old tagUpdate)) w
      else
        gitReporter (TagUpdated repoID principalID (Ref tagUpdate)
          (Old tagUpdate) (New tagUpdate) True) w)"

text \<open>The body of the \<^verbatim>\<open>for ... range in.RefUpdates\<close> loop, and the loop.\<close>

definition reportReferenceEvent :: "int64 \<Rightarrow> int64 \<Rightarrow> ReferenceUpdate \<Rightarrow> world \<Rightarrow> world" where
  "reportReferenceEvent repoID principalID refUpdate w =
     (if HasPrefix (Ref refUpdate) gitReferenceNamePrefixBranch then
        reportBranchEvent repoID principalID refUpdate w
      else if HasPrefix (Ref refUpdate) gitReferenceNamePrefixTag then
        reportTagEvent repoID principalID refUpdate w
      else w)"

fun reportReferenceEvents_loop ::
  "int64 \<Rightarrow> int64 \<Rightarrow> ReferenceUpdate list \<Rightarrow> world \<Rightarrow> world" where
  "reportReferenceEvents_loop repoID principalID [] w = w"
| "reportReferenceEvents_loop repoID principalID (refUpdate # rest) w =
     reportReferenceEvents_loop repoID principalID rest
       (reportReferenceEvent repoID principalID refUpdate w)"

definition reportReferenceEvents :: "int64 \<Rightarrow> int64 \<Rightarrow> PostReceiveInput \<Rightarrow> world \<Rightarrow> world" where
  "reportReferenceEvents repoID principalID inp w =
     reportReferenceEvents_loop repoID principalID (RefUpdates inp) w"

subsection \<open>Pull-request messaging\<close>

text \<open>The filter handed to \<^verbatim>\<open>c.pullreqStore.List\<close>.\<close>

definition prFilter :: "Repository \<Rightarrow> string \<Rightarrow> PullReqFilter" where
  "prFilter repo branchName =
     \<lparr>Page = 1, Size = 2, SourceRepoID = ID repo, SourceBranch = branchName,
      States = [PullReqStateOpen], Order = OrderAsc, Sort = PullReqSortCreated\<rparr>"

definition lookupFailedMsg :: "string \<Rightarrow> Repository \<Rightarrow> string" where
  "lookupFailedMsg branchName repo =
     ''failed to find pullrequests for branch '' @ [CHR 0x27] @ branchName @ [CHR 0x27]
       @ '' originating from repo '' @ [CHR 0x27] @ Path repo @ [CHR 0x27]"

definition openPRsHeader :: "string \<Rightarrow> string" where
  "openPRsHeader branchName = ''Branch '' @ [CHR 0x27] @ branchName @ [CHR 0x27] @ '' has open PRs:''"

definition prLine :: "PullReq \<Rightarrow> string" where
  "prLine pr = ''  (#'' @ fmt_d (Number pr) @ '') '' @ Title pr"

definition prURLLine :: "'s Controller \<Rightarrow> Repository \<Rightarrow> PullReq \<Rightarrow> string" where
  "prURLLine c repo pr = ''    '' @ GenerateUIPRURL c (Path repo) (Number pr)"

definition createPRMsg :: "string \<Rightarrow> string" where
  "createPRMsg branchName = ''Create a new PR for branch '' @ [CHR 0x27] @ branchName @ [CHR 0x27]"

text \<open>The loop \<^verbatim>\<open>for i, pr := range prs\<close> writing \<^verbatim>\<open>msgs[2*i+1]\<close> and \<^verbatim>\<open>msgs[2*i+2]\<close>.\<close>

fun fillPRMsgs ::
  "'s Controller \<Rightarrow> Repository \<Rightarrow> nat \<Rightarrow> PullReq list \<Rightarrow> string list \<Rightarrow> string list option" where
  "fillPRMsgs c repo i [] msgs = Some msgs"
| "fillPRMsgs c repo i (pr # prs) msgs =
     (case set_index msgs (2 * i + 1) (prLine pr) of
        None \<Rightarrow> None
      | Some msgs1 \<Rightarrow>
          (case set_index msgs1 (2 * i + 2) (prURLLine c repo pr) of
             None \<Rightarrow> None
           | Some msgs2 \<Rightarrow> fillPRMsgs c repo (Suc i) prs msgs2))"

definition openPRMsgs ::
  "'s Controller \<Rightarrow> Repository \<Rightarrow> string \<Rightarrow> PullReq list \<Rightarrow> string list option" where
  "openPRMsgs c repo branchName prs =
     (case set_index (replicate (2 * length prs + 1) []) 0 (openPRsHeader branchName) of
        None \<Rightarrow> None
      | Some msgs \<Rightarrow> fillPRMsgs c repo 0 prs msgs)"

definition handlePRMessaging ::
  "'s Controller \<Rightarrow> Repository \<Rightarrow> PostReceiveInput \<Rightarrow> Output \<Rightarrow> world \<Rightarrow> (Output \<times> world) option" where
  "handlePRMessaging c repo inp out w =
     (case RefUpdates inp of
        [refUpdate] \<Rightarrow>
          if \<not> HasPrefix (Ref refUpdate) gitReferenceNamePrefixBranch \<or> New refUpdate = NilSHA
          then Some (out, w)
          else
            (case slice_from (Ref refUpdate) (length gitReferenceNamePrefixBranch) of
               None \<Rightarrow> None
             | Some branchName \<Rightarrow>
                 let w1 = w\<lparr>lookups := lookups w @ [prFilter repo branchName]\<rparr> in
                 (case pullreqStore_List c (prFilter repo branchName) of
                    Inl err \<Rightarrow>
                      Some (out, w1\<lparr>logs := logs w1 @ [Warn err (lookupFailedMsg branchName repo)]\<rparr>)
                  | Inr prs \<Rightarrow>
                      if length prs > 0 then
                        (case openPRMsgs c repo branchName prs of
                           None \<Rightarrow> None
                         | Some msgs \<Rightarrow> Some (out\<lparr>Messages := Messages out @ msgs\<rparr>, w1))
                      else
                        Some (out\<lparr>Messages := Messages out @
                                [createPRMsg branchName,
                                 ''  '' @ GenerateUICompareURL c (Path repo) (DefaultBranch repo) branchName]\<rparr>,
                              w1)))
      | _ \<Rightarrow> Some (out, w))"

subsection \<open>The hook\<close>

definition PostReceive ::
  "'s Controller \<Rightarrow> 's \<Rightarrow> int64 \<Rightarrow> int64 \<Rightarrow> PostReceiveInput option \<Rightarrow> world
     \<Rightarrow> ((error + Output) \<times> world) option" where
  "PostReceive c session repoID principalID inp w =
     (case inp of
        None \<Rightarrow> Some (Inl (Error ''input is nil''), w)
      | Some input \<Rightarrow>
          (case getRepoCheckAccess c session repoID PermissionRepoEdit of
             Inl err \<Rightarrow> Some (Inl err, w)
           | Inr repo \<Rightarrow>
               let w1 = reportReferenceEvents repoID principalID input w in
               (case handlePRMessaging c repo input \<lparr>Messages = []\<rparr> w1 of
                  None \<Rightarrow> None
                | Some (out, w2) \<Rightarrow> Some (Inr out, w2))))"

subsection \<open>The classification as the specification words it\<close>

text \<open>The specification classifies a reference update twice: by the prefix of its name
  (branch, tag, or ignored), and by its SHA transition: "old==Nil: Created; new==Nil:
  Deleted; else: Updated". The two definitions below follow those words; the theorems
  compare them with the events the code dispatches.\<close>

datatype transition = Created | Deleted | Updated

datatype refClass = BranchRef | TagRef

definition spec_transition :: "ReferenceUpdate \<Rightarrow> transition" where
  "spec_transition u =
     (if Old u = NilSHA then Created else if New u = NilSHA then Deleted else Updated)"

definition spec_refClass :: "ReferenceUpdate \<Rightarrow> refClass option" where
  "spec_refClass u =
     (if HasPrefix (Ref u) gitReferenceNamePrefixBranch then Some BranchRef
      else if HasPrefix (Ref u) gitReferenceNamePrefixTag then Some TagRef
      else None)"

definition spec_view :: "ReferenceUpdate \<Rightarrow> refClass option \<times> transition \<times> string" where
  "spec_view u = (spec_refClass u, spec_transition u, Ref u)"

text \<open>What a dispatched event says about the update it reports.\<close>

fun eventTransition :: "event \<Rightarrow> transition" where
  "eventTransition (BranchCreated _ _ _ _) = Created"
| "eventTransition (BranchDeleted _ _ _ _) = Deleted"
| "eventTransition (BranchUpdated _ _ _ _ _ _) = Updated"
| "eventTransition (TagCreated _ _ _ _) = Created"
| "eventTransition (TagDeleted _ _ _ _) = Deleted"
| "eventTransition (TagUpdated _ _ _ _ _ _) = Updated"

fun eventRefClass :: "event \<Rightarrow> refClass" where
  "eventRefClass (BranchCreated _ _ _ _) = BranchRef"
| "eventRefClass (BranchDeleted _ _ _ _) = BranchRef"
| "eventRefClass (BranchUpdated _ _ _ _ _ _) = BranchRef"
| "eventRefClass (TagCreated _ _ _ _) = TagRef"
| "eventRefClass (TagDeleted _ _ _ _) = TagRef"
| "eventRefClass (TagUpdated _ _ _ _ _ _) = TagRef"

definition eventView :: "event \<Rightarrow> refClass option \<times> transition \<times> string" where
  "eventView e = (Some (eventRefClass e), eventTransition e, EventRef e)"

text \<open>The world before the hook runs, with nothing recorded, and the events one
  reference update adds to it.\<close>

definition w0 :: world where
  "w0 = \<lparr>dispatched = [], lookups = [], logs = []\<rparr>"

definition newEvents :: "int64 \<Rightarrow> int64 \<Rightarrow> ReferenceUpdate \<Rightarrow> event list" where
  "newEvents repoID principalID u = dispatched (reportReferenceEvent repoID principalID u w0)"

text \<open>The condition under which \<open>handlePRMessaging\<close> goes on to query the store.\<close>

definition singleBranchPush :: "PostReceiveInput \<Rightarrow> bool" where
  "singleBranchPush inp =
     (case RefUpdates inp of
        [u] \<Rightarrow> HasPrefix (Ref u) gitReferenceNamePrefixBranch \<and> New u \<noteq> NilSHA
      | _ \<Rightarrow> False)"

definition branchNameOf :: "PostReceiveInput \<Rightarrow> string" where
  "branchNameOf inp =
     (case RefUpdates inp of
        [u] \<Rightarrow> drop (length gitReferenceNamePrefixBranch) (Ref u)
      | _ \<Rightarrow> [])"

subsection \<open>Concrete collaborators and pushes\<close>

definition demo_repo :: Repository where
  "demo_repo = \<lparr>ID = 7, Path = ''acme/widgets'', DefaultBranch = ''main''\<rparr>"

definition demo_controller ::
  "(error + Repository) \<Rightarrow> (PullReqFilter \<Rightarrow> error + PullReq list) \<Rightarrow> unit Controller" where
  "demo_controller access store =
     \<lparr>getRepoCheckAccess = (\<lambda>_ _ _. access),
      pullreqStore_List = store,
      GenerateUIPRURL = (\<lambda>path n. ''https://git.example/'' @ path @ ''/pulls/'' @ fmt_d n),
      GenerateUICompareURL =
        (\<lambda>path a b. ''https://git.example/'' @ path @ ''/pulls/compare/'' @ a @ ''...'' @ b)\<rparr>"

text \<open>A store that holds the open pull requests of the pushed branch and pages them.\<close>

definition demo_store :: "PullReq list \<Rightarrow> PullReqFilter \<Rightarrow> error + PullReq list" where
  "demo_store db f = Inr (take (nat (Size f)) (drop (nat ((Page f - 1) * Size f)) db))"

definition demo_push :: PostReceiveInput where
  "demo_push = \<lparr>RefUpdates =
     [\<lparr>Ref = ''refs/heads/main'', Old = NilSHA, New = ''abc123''\<rparr>,
      \<lparr>Ref = ''refs/tags/v1.0'', Old = ''abc123'', New = NilSHA\<rparr>,
      \<lparr>Ref = ''refs/notes/x'', Old = ''abc123'', New = ''def456''\<rparr>,
      \<lparr>Ref = ''refs/heads/dev'', Old = ''abc123'', New = ''def456''\<rparr>]\<rparr>"

definition feature_push :: PostReceiveInput where
  "feature_push = \<lparr>RefUpdates = [\<lparr>Ref = ''refs/heads/feature'', Old = NilSHA, New = ''abc123''\<rparr>]\<rparr>"

definition update_push :: PostReceiveInput where
  "update_push = \<lparr>RefUpdates =
     [\<lparr>Ref = ''refs/tags/v1.0'', Old = ''abc123'', New = ''def456''\<rparr>,
      \<lparr>Ref = ''refs/heads/dev'', Old = ''abc123'', New = ''def456''\<rparr>]\<rparr>"

definition feature_update :: ReferenceUpdate where
  "feature_update = \<lparr>Ref = ''refs/heads/feature'', Old = NilSHA, New = ''abc123''\<rparr>"

definition tag_delete_update :: ReferenceUpdate where
  "tag_delete_update = \<lparr>Ref = ''refs/tags/v1.0'', Old = ''abc123'', New = NilSHA\<rparr>"

definition tag_nil_update :: ReferenceUpdate where
  "tag_nil_update = \<lparr>Ref = ''refs/tags/v1.0'', Old = NilSHA, New = NilSHA\<rparr>"

definition three_prs :: "PullReq list" where
  "three_prs = [\<lparr>Number = 42, Title = ''Add X''\<rparr>, \<lparr>Number = 43, Title = ''Add Y''\<rparr>,
                \<lparr>Number = 44, Title = ''Add Z''\<rparr>]"

text \<open>A store that returns every open pull request it holds, whatever size is asked for.\<close>

definition unpaged_store :: "PullReq list \<Rightarrow> PullReqFilter \<Rightarrow> error + PullReq list" where
  "unpaged_store db f = Inr db"

section \<open>Properties\<close>

subsection \<open>Reference names\<close>

lemma HasPrefix_nth:
  assumes "HasPrefix s p" and "i < length p"
  shows "s ! i = p ! i"
proof -
  from assms(1) have "take (length p) s = p"
    by (simp only: HasPrefix_def)
  then have "p ! i = take (length p) s ! i"
    by (simp only:)
  also from assms(2) have "\<dots> = s ! i"
    by (rule nth_take)
  finally show ?thesis by (rule sym)
qed

lemma tag_not_branch:
  assumes "HasPrefix s gitReferenceNamePrefixTag"
  shows "\<not> HasPrefix s gitReferenceNamePrefixBranch"
proof
  assume b: "HasPrefix s gitReferenceNamePrefixBranch"
  have "s ! 5 = gitReferenceNamePrefixTag ! 5"
    using assms by (rule HasPrefix_nth) (simp add: gitReferenceNamePrefixTag_def)
  moreover have "s ! 5 = gitReferenceNamePrefixBranch ! 5"
    using b by (rule HasPrefix_nth) (simp add: gitReferenceNamePrefixBranch_def)
  ultimately show False
    by (simp add: gitReferenceNamePrefixTag_def gitReferenceNamePrefixBranch_def)
qed

lemma slice_from_prefix:
  "HasPrefix s p \<Longrightarrow> slice_from s (length p) = Some (drop (length p) s)"
  by (simp add: HasPrefix_def slice_from_def)

subsection \<open>The events of a push\<close>

lemma reportReferenceEvent_frame:
  "reportReferenceEvent r p u w = w\<lparr>dispatched := dispatched w @ newEvents r p u\<rparr>"
  by (simp add: newEvents_def w0_def reportReferenceEvent_def reportBranchEvent_def
      reportTagEvent_def gitReporter_def)

lemma reportReferenceEvents_loop_frame:
  "reportReferenceEvents_loop r p us w =
     w\<lparr>dispatched := dispatched w @ concat (map (newEvents r p) us)\<rparr>"
proof (induction us arbitrary: w)
  case Nil
  show ?case by simp
next
  case (Cons u us)
  have "reportReferenceEvents_loop r p (u # us) w =
          reportReferenceEvents_loop r p us (w\<lparr>dispatched := dispatched w @ newEvents r p u\<rparr>)"
    by (simp add: reportReferenceEvent_frame [symmetric])
  also have "\<dots> = w\<lparr>dispatched := dispatched w @ concat (map (newEvents r p) (u # us))\<rparr>"
    by (simp add: Cons.IH)
  finally show ?case .
qed

lemma reportReferenceEvents_frame:
  "reportReferenceEvents r p inp w =
     w\<lparr>dispatched := dispatched w @ concat (map (newEvents r p) (RefUpdates inp))\<rparr>"
  by (simp add: reportReferenceEvents_def reportReferenceEvents_loop_frame)

lemma newEvents_view:
  "map eventView (newEvents r p u) = map spec_view (filter (\<lambda>u. spec_refClass u \<noteq> None) [u])"
  by (simp add: newEvents_def w0_def reportReferenceEvent_def reportBranchEvent_def
      reportTagEvent_def gitReporter_def eventView_def spec_view_def spec_refClass_def
      spec_transition_def)

lemma concat_newEvents_view:
  "map eventView (concat (map (newEvents r p) us)) =
     map spec_view (filter (\<lambda>u. spec_refClass u \<noteq> None) us)"
proof (induction us)
  case Nil
  show ?case by simp
next
  case (Cons u us)
  have "map eventView (concat (map (newEvents r p) (u # us))) =
          map eventView (newEvents r p u) @ map eventView (concat (map (newEvents r p) us))"
    by simp
  also have "\<dots> = map spec_view (filter (\<lambda>u. spec_refClass u \<noteq> None) [u]) @
                    map spec_view (filter (\<lambda>u. spec_refClass u \<noteq> None) us)"
    by (simp only: newEvents_view Cons.IH)
  also have "\<dots> = map spec_view (filter (\<lambda>u. spec_refClass u \<noteq> None) (u # us))"
    by simp
  finally show ?case .
qed

text \<open>
  Claim C1. The events the hook dispatches for a push are, in order, one for each
  reference update whose name has the branch or the tag prefix, and none for any other
  update. The event of an update reports the class of its name (branch or tag), its
  reference, and its SHA transition: Created when the old SHA is \<open>NilSHA\<close>, otherwise
  Deleted when the new SHA is \<open>NilSHA\<close>, otherwise Updated.
\<close>

theorem classification_by_sha_transition:
  "\<exists>evs. dispatched (reportReferenceEvents repoID principalID inp w) = dispatched w @ evs \<and>
     map eventView evs =
       map spec_view (filter (\<lambda>u. spec_refClass u \<noteq> None) (RefUpdates inp))"
proof -
  let ?evs = "concat (map (newEvents repoID principalID) (RefUpdates inp))"
  have "dispatched (reportReferenceEvents repoID principalID inp w) = dispatched w @ ?evs"
    by (simp add: reportReferenceEvents_frame)
  moreover have "map eventView ?evs =
      map spec_view (filter (\<lambda>u. spec_refClass u \<noteq> None) (RefUpdates inp))"
    by (rule concat_newEvents_view)
  ultimately show ?thesis by blast
qed

theorem classification_by_sha_transition_witness:
  "\<exists>evs. dispatched (reportReferenceEvents 7 3 demo_push w0) = evs \<and>
     map eventView evs =
       [(Some BranchRef, Created, ''refs/heads/main''),
        (Some TagRef, Deleted, ''refs/tags/v1.0''),
        (Some BranchRef, Updated, ''refs/heads/dev'')]"
  using classification_by_sha_transition [of 7 3 demo_push w0]
  by (simp add: demo_push_def w0_def spec_view_def spec_refClass_def spec_transition_def
      HasPrefix_def gitReferenceNamePrefixBranch_def gitReferenceNamePrefixTag_def NilSHA_def)

subsection \<open>The messages about pull requests\<close>

text \<open>The loop fills the slots after the first 2*i+1 with the lines of the remaining PRs.\<close>

lemma fillPRMsgs_result:
  "length msgs = 2 * i + 1 + 2 * length prs \<Longrightarrow>
   fillPRMsgs c repo i prs msgs =
     Some (take (2 * i + 1) msgs @ concat (map (\<lambda>pr. [prLine pr, prURLLine c repo pr]) prs))"
proof (induction prs arbitrary: i msgs)
  case Nil
  then show ?case by simp
next
  case (Cons pr prs)
  let ?m1 = "msgs[2 * i + 1 := prLine pr]"
  let ?m2 = "?m1[2 * i + 2 := prURLLine c repo pr]"
  from Cons.prems have len: "length ?m2 = 2 * Suc i + 1 + 2 * length prs"
    by simp
  from Cons.prems have step:
    "fillPRMsgs c repo i (pr # prs) msgs = fillPRMsgs c repo (Suc i) prs ?m2"
    by (simp add: set_index_def)
  have n: "2 * Suc i + 1 = Suc (Suc (2 * i + 1))" and n2: "2 * i + 2 = Suc (2 * i + 1)"
    by simp_all
  from Cons.prems have lt: "Suc (2 * i + 1) < length ?m2"
    by simp
  have "take (Suc (Suc (2 * i + 1))) ?m2 =
          take (2 * i + 1) ?m2 @ [?m2 ! (2 * i + 1), ?m2 ! Suc (2 * i + 1)]"
    using lt by (simp add: take_Suc_conv_app_nth)
  moreover have "take (2 * i + 1) ?m2 = take (2 * i + 1) msgs"
    by simp
  moreover have "?m2 ! (2 * i + 1) = prLine pr"
    using lt by simp
  moreover have "?m2 ! Suc (2 * i + 1) = prURLLine c repo pr"
    using lt by simp
  ultimately have tk:
    "take (2 * Suc i + 1) ?m2 = take (2 * i + 1) msgs @ [prLine pr, prURLLine c repo pr]"
    by (simp only: n)
  show ?case
    by (simp only: step Cons.IH [OF len] tk) simp
qed


lemma openPRMsgs_result:
  "openPRMsgs c repo branchName prs =
     Some (openPRsHeader branchName # concat (map (\<lambda>pr. [prLine pr, prURLLine c repo pr]) prs))"
proof -
  let ?m = "(replicate (2 * length prs + 1) [])[0 := openPRsHeader branchName]"
  have "length ?m = 2 * 0 + 1 + 2 * length prs"
    by simp
  then have "fillPRMsgs c repo 0 prs ?m =
      Some (take (2 * 0 + 1) ?m @ concat (map (\<lambda>pr. [prLine pr, prURLLine c repo pr]) prs))"
    by (rule fillPRMsgs_result)
  moreover have "take (2 * 0 + 1) ?m = [openPRsHeader branchName]"
    by (simp add: take_Suc_conv_app_nth)
  ultimately show ?thesis
    by (simp add: openPRMsgs_def set_index_def)
qed

lemma length_concat_pairs: "length (concat (map (\<lambda>x. [f x, g x]) xs)) = 2 * length xs"
  by (induction xs) simp_all

lemma singleBranchPush_iff:
  "singleBranchPush inp =
     (\<exists>u. RefUpdates inp = [u] \<and> HasPrefix (Ref u) gitReferenceNamePrefixBranch \<and> New u \<noteq> NilSHA)"
  by (auto simp: singleBranchPush_def split: list.splits)

lemma handlePRMessaging_skip:
  "\<not> singleBranchPush inp \<Longrightarrow> handlePRMessaging c repo inp out w = Some (out, w)"
  by (auto simp: singleBranchPush_def handlePRMessaging_def split: list.splits)

lemma handlePRMessaging_run:
  assumes "singleBranchPush inp"
  shows "handlePRMessaging c repo inp out w =
     (case pullreqStore_List c (prFilter repo (branchNameOf inp)) of
        Inl err \<Rightarrow>
          Some (out, w\<lparr>lookups := lookups w @ [prFilter repo (branchNameOf inp)],
                       logs := logs w @ [Warn err (lookupFailedMsg (branchNameOf inp) repo)]\<rparr>)
      | Inr prs \<Rightarrow>
          Some (out\<lparr>Messages := Messages out @
                  (if prs = [] then
                     [createPRMsg (branchNameOf inp),
                      ''  '' @ GenerateUICompareURL c (Path repo) (DefaultBranch repo) (branchNameOf inp)]
                   else openPRsHeader (branchNameOf inp) #
                     concat (map (\<lambda>pr. [prLine pr, prURLLine c repo pr]) prs))\<rparr>,
                w\<lparr>lookups := lookups w @ [prFilter repo (branchNameOf inp)]\<rparr>))"
proof -
  from assms obtain u where u: "RefUpdates inp = [u]"
    and pre: "HasPrefix (Ref u) gitReferenceNamePrefixBranch" and new: "New u \<noteq> NilSHA"
    by (auto simp: singleBranchPush_iff)
  have b: "branchNameOf inp = drop (length gitReferenceNamePrefixBranch) (Ref u)"
    by (simp add: branchNameOf_def u)
  have sl: "slice_from (Ref u) (length gitReferenceNamePrefixBranch) = Some (branchNameOf inp)"
    by (simp only: b slice_from_prefix [OF pre])
  show ?thesis
    by (simp add: handlePRMessaging_def u pre new sl openPRMsgs_result Let_def
        split: sum.splits)
qed

subsection \<open>The forced flag and the order of the cases\<close>

lemma newEvents_branch:
  "HasPrefix (Ref u) gitReferenceNamePrefixBranch \<Longrightarrow>
   newEvents r p u =
     [if Old u = NilSHA then BranchCreated r p (Ref u) (New u)
      else if New u = NilSHA then BranchDeleted r p (Ref u) (Old u)
      else BranchUpdated r p (Ref u) (Old u) (New u) False]"
  by (simp add: newEvents_def w0_def reportReferenceEvent_def reportBranchEvent_def
      gitReporter_def)

lemma newEvents_tag:
  "HasPrefix (Ref u) gitReferenceNamePrefixTag \<Longrightarrow>
   newEvents r p u =
     [if Old u = NilSHA then TagCreated r p (Ref u) (New u)
      else if New u = NilSHA then TagDeleted r p (Ref u) (Old u)
      else TagUpdated r p (Ref u) (Old u) (New u) True]"
  by (simp add: newEvents_def w0_def reportReferenceEvent_def reportTagEvent_def
      gitReporter_def tag_not_branch)

lemma newEvents_forced:
  "e \<in> set (newEvents r p u) \<Longrightarrow>
     (is_TagUpdated e \<longrightarrow> Forced e) \<and> (is_BranchUpdated e \<longrightarrow> \<not> Forced e)"
  by (auto simp: newEvents_def w0_def reportReferenceEvent_def reportBranchEvent_def
      reportTagEvent_def gitReporter_def split: if_splits)

text \<open>
  Claim C4. Every \<open>TagUpdated\<close> event the hook dispatches carries \<open>Forced = True\<close> and every
  \<open>BranchUpdated\<close> event carries \<open>Forced = False\<close>; and every update of the push that is
  neither a creation nor a deletion (old and new SHA both differ from \<open>NilSHA\<close>) is reported
  as such an event: forced for a tag, not forced for a branch.
\<close>

theorem forced_flag_asymmetry:
  "\<exists>evs. dispatched (reportReferenceEvents repoID principalID inp w) = dispatched w @ evs \<and>
     (\<forall>e \<in> set evs. (is_TagUpdated e \<longrightarrow> Forced e) \<and> (is_BranchUpdated e \<longrightarrow> \<not> Forced e)) \<and>
     (\<forall>u \<in> set (RefUpdates inp). Old u \<noteq> NilSHA \<and> New u \<noteq> NilSHA \<longrightarrow>
        (HasPrefix (Ref u) gitReferenceNamePrefixTag \<longrightarrow>
           TagUpdated repoID principalID (Ref u) (Old u) (New u) True \<in> set evs) \<and>
        (HasPrefix (Ref u) gitReferenceNamePrefixBranch \<longrightarrow>
           BranchUpdated repoID principalID (Ref u) (Old u) (New u) False \<in> set evs))"
proof -
  let ?evs = "concat (map (newEvents repoID principalID) (RefUpdates inp))"
  have 1: "dispatched (reportReferenceEvents repoID principalID inp w) = dispatched w @ ?evs"
    by (simp add: reportReferenceEvents_frame)
  have 2: "\<forall>e \<in> set ?evs. (is_TagUpdated e \<longrightarrow> Forced e) \<and> (is_BranchUpdated e \<longrightarrow> \<not> Forced e)"
    using newEvents_forced by fastforce
  have 3: "\<forall>u \<in> set (RefUpdates inp). Old u \<noteq> NilSHA \<and> New u \<noteq> NilSHA \<longrightarrow>
        (HasPrefix (Ref u) gitReferenceNamePrefixTag \<longrightarrow>
           TagUpdated repoID principalID (Ref u) (Old u) (New u) True \<in> set ?evs) \<and>
        (HasPrefix (Ref u) gitReferenceNamePrefixBranch \<longrightarrow>
           BranchUpdated repoID principalID (Ref u) (Old u) (New u) False \<in> set ?evs)"
  proof (intro ballI impI conjI)
    fix u assume u: "u \<in> set (RefUpdates inp)" and n: "Old u \<noteq> NilSHA \<and> New u \<noteq> NilSHA"
    {
      assume "HasPrefix (Ref u) gitReferenceNamePrefixTag"
      then have "newEvents repoID principalID u =
          [TagUpdated repoID principalID (Ref u) (Old u) (New u) True]"
        using n by (simp add: newEvents_tag)
      with u show "TagUpdated repoID principalID (Ref u) (Old u) (New u) True \<in> set ?evs"
        by force
    }
    {
      assume "HasPrefix (Ref u) gitReferenceNamePrefixBranch"
      then have "newEvents repoID principalID u =
          [BranchUpdated repoID principalID (Ref u) (Old u) (New u) False]"
        using n by (simp add: newEvents_branch)
      with u show "BranchUpdated repoID principalID (Ref u) (Old u) (New u) False \<in> set ?evs"
        by force
    }
  qed
  from 1 2 3 show ?thesis by blast
qed

theorem forced_flag_asymmetry_witness:
  "dispatched (reportReferenceEvents 7 3 update_push w0) =
     [TagUpdated 7 3 ''refs/tags/v1.0'' ''abc123'' ''def456'' True,
      BranchUpdated 7 3 ''refs/heads/dev'' ''abc123'' ''def456'' False] \<and>
   (\<exists>evs. dispatched (reportReferenceEvents 7 3 update_push w0) = dispatched w0 @ evs \<and>
     (\<forall>e \<in> set evs. (is_TagUpdated e \<longrightarrow> Forced e) \<and> (is_BranchUpdated e \<longrightarrow> \<not> Forced e)) \<and>
     TagUpdated 7 3 ''refs/tags/v1.0'' ''abc123'' ''def456'' True \<in> set evs \<and>
     BranchUpdated 7 3 ''refs/heads/dev'' ''abc123'' ''def456'' False \<in> set evs)"
proof -
  have c: "dispatched (reportReferenceEvents 7 3 update_push w0) =
     [TagUpdated 7 3 ''refs/tags/v1.0'' ''abc123'' ''def456'' True,
      BranchUpdated 7 3 ''refs/heads/dev'' ''abc123'' ''def456'' False]"
    by (simp add: reportReferenceEvents_def reportReferenceEvent_def reportBranchEvent_def
        reportTagEvent_def gitReporter_def update_push_def w0_def HasPrefix_def
        gitReferenceNamePrefixBranch_def gitReferenceNamePrefixTag_def NilSHA_def)
  from forced_flag_asymmetry [of 7 3 update_push w0]
  obtain evs where e: "dispatched (reportReferenceEvents 7 3 update_push w0) = dispatched w0 @ evs"
    and f: "\<forall>e \<in> set evs. (is_TagUpdated e \<longrightarrow> Forced e) \<and> (is_BranchUpdated e \<longrightarrow> \<not> Forced e)"
    by blast
  from c e have "evs = [TagUpdated 7 3 ''refs/tags/v1.0'' ''abc123'' ''def456'' True,
      BranchUpdated 7 3 ''refs/heads/dev'' ''abc123'' ''def456'' False]"
    by (simp add: w0_def)
  with c e f show ?thesis by simp
qed

text \<open>
  Claim C9. A reference update whose old and new SHA both equal \<open>NilSHA\<close> is classified
  Created, since the old SHA is tested first; the event dispatched for it is
  \<open>BranchCreated\<close> for a branch and \<open>TagCreated\<close> for a tag, with SHA field \<open>NilSHA\<close>.
\<close>

theorem nil_to_nil_is_created:
  assumes "RefUpdates inp = [u]" and "Old u = NilSHA" and "New u = NilSHA"
  shows "spec_transition u = Created \<and>
     (HasPrefix (Ref u) gitReferenceNamePrefixBranch \<longrightarrow>
        reportBranchEvent repoID principalID u w =
          w\<lparr>dispatched := dispatched w @ [BranchCreated repoID principalID (Ref u) NilSHA]\<rparr> \<and>
        dispatched (reportReferenceEvents repoID principalID inp w) =
          dispatched w @ [BranchCreated repoID principalID (Ref u) NilSHA]) \<and>
     (HasPrefix (Ref u) gitReferenceNamePrefixTag \<longrightarrow>
        reportTagEvent repoID principalID u w =
          w\<lparr>dispatched := dispatched w @ [TagCreated repoID principalID (Ref u) NilSHA]\<rparr> \<and>
        dispatched (reportReferenceEvents repoID principalID inp w) =
          dispatched w @ [TagCreated repoID principalID (Ref u) NilSHA])"
  using assms
  by (simp add: spec_transition_def reportReferenceEvents_frame newEvents_branch newEvents_tag
      reportBranchEvent_def reportTagEvent_def gitReporter_def)

theorem nil_to_nil_is_created_witness:
  "dispatched (reportReferenceEvents 7 3
      \<lparr>RefUpdates = [\<lparr>Ref = ''refs/heads/x'', Old = NilSHA, New = NilSHA\<rparr>]\<rparr> w0) =
     [BranchCreated 7 3 ''refs/heads/x'' NilSHA] \<and>
   dispatched (reportReferenceEvents 7 3
      \<lparr>RefUpdates = [\<lparr>Ref = ''refs/tags/x'', Old = NilSHA, New = NilSHA\<rparr>]\<rparr> w0) =
     [TagCreated 7 3 ''refs/tags/x'' NilSHA]"
  using nil_to_nil_is_created [of "\<lparr>RefUpdates = [\<lparr>Ref = ''refs/heads/x'', Old = NilSHA, New = NilSHA\<rparr>]\<rparr>"
      "\<lparr>Ref = ''refs/heads/x'', Old = NilSHA, New = NilSHA\<rparr>" 7 3 w0]
    nil_to_nil_is_created [of "\<lparr>RefUpdates = [\<lparr>Ref = ''refs/tags/x'', Old = NilSHA, New = NilSHA\<rparr>]\<rparr>"
      "\<lparr>Ref = ''refs/tags/x'', Old = NilSHA, New = NilSHA\<rparr>" 7 3 w0]
  by (simp add: w0_def HasPrefix_def gitReferenceNamePrefixBranch_def gitReferenceNamePrefixTag_def)

subsection \<open>The hook as a whole\<close>

lemma demo_controller_sel:
  "getRepoCheckAccess (demo_controller access store) session repoID perm = access"
  "pullreqStore_List (demo_controller access store) = store"
  by (simp_all add: demo_controller_def)

lemma reportReferenceEvents_lookups:
  "lookups (reportReferenceEvents r p inp w) = lookups w"
  "logs (reportReferenceEvents r p inp w) = logs w"
  by (simp_all add: reportReferenceEvents_frame)

lemma PostReceive_granted:
  assumes "getRepoCheckAccess c session repoID PermissionRepoEdit = Inr repo"
  shows "PostReceive c session repoID principalID (Some inp) w =
     (case handlePRMessaging c repo inp \<lparr>Messages = []\<rparr>
             (reportReferenceEvents repoID principalID inp w) of
        None \<Rightarrow> None
      | Some (out, w2) \<Rightarrow> Some (Inr out, w2))"
  by (simp add: PostReceive_def assms)

lemma handlePRMessaging_total:
  "\<exists>out' w'. handlePRMessaging c repo inp out w = Some (out', w')"
proof (cases "singleBranchPush inp")
  case True
  then show ?thesis
    by (simp add: handlePRMessaging_run split: sum.splits)
next
  case False
  then show ?thesis
    by (simp add: handlePRMessaging_skip)
qed

text \<open>
  Claim C2. \<open>handlePRMessaging\<close> queries the pull-request store if and only if the push has
  exactly one reference update, the name of that update has the prefix \<open>refs/heads/\<close> and
  its new SHA is not \<open>NilSHA\<close>. For a push with a number of updates other than one, or with
  an update outside the branches, or with a deletion, it leaves the output and the world
  as they are: no message is appended.
\<close>

theorem pr_messaging_iff_single_branch_push:
  "\<exists>out' w'. handlePRMessaging c repo inp out w = Some (out', w') \<and>
     ((\<exists>f. lookups w' = lookups w @ [f]) \<longleftrightarrow>
        (\<exists>u. RefUpdates inp = [u] \<and> HasPrefix (Ref u) gitReferenceNamePrefixBranch \<and>
             New u \<noteq> NilSHA)) \<and>
     ((length (RefUpdates inp) \<noteq> 1 \<or>
       (\<exists>u \<in> set (RefUpdates inp). \<not> HasPrefix (Ref u) gitReferenceNamePrefixBranch) \<or>
       (\<exists>u \<in> set (RefUpdates inp). New u = NilSHA)) \<longrightarrow>
        out' = out \<and> w' = w)"
proof (cases "singleBranchPush inp")
  case True
  then obtain u where u: "RefUpdates inp = [u]"
      "HasPrefix (Ref u) gitReferenceNamePrefixBranch" "New u \<noteq> NilSHA"
    by (auto simp: singleBranchPush_iff)
  obtain out' w' where r: "handlePRMessaging c repo inp out w = Some (out', w')"
    using handlePRMessaging_total by blast
  with True have "lookups w' = lookups w @ [prFilter repo (branchNameOf inp)]"
    by (auto simp: handlePRMessaging_run split: sum.splits)
  with r u show ?thesis by auto
next
  case False
  then have "handlePRMessaging c repo inp out w = Some (out, w)"
    by (rule handlePRMessaging_skip)
  moreover from False have
    "\<not> (\<exists>u. RefUpdates inp = [u] \<and> HasPrefix (Ref u) gitReferenceNamePrefixBranch \<and>
             New u \<noteq> NilSHA)"
    by (simp add: singleBranchPush_iff)
  ultimately show ?thesis by simp
qed

theorem pr_messaging_iff_single_branch_push_witness:
  "(\<exists>out' w'. handlePRMessaging (demo_controller (Inr demo_repo) (demo_store [])) demo_repo
        feature_push \<lparr>Messages = []\<rparr> w0 = Some (out', w') \<and>
      (\<exists>f. lookups w' = [f])) \<and>
   handlePRMessaging (demo_controller (Inr demo_repo) (demo_store [])) demo_repo
        demo_push \<lparr>Messages = []\<rparr> w0 = Some (\<lparr>Messages = []\<rparr>, w0)"
  using pr_messaging_iff_single_branch_push
      [of "demo_controller (Inr demo_repo) (demo_store [])" demo_repo feature_push "\<lparr>Messages = []\<rparr>" w0]
    pr_messaging_iff_single_branch_push
      [of "demo_controller (Inr demo_repo) (demo_store [])" demo_repo demo_push "\<lparr>Messages = []\<rparr>" w0]
  by (simp add: feature_push_def demo_push_def w0_def HasPrefix_def NilSHA_def
      gitReferenceNamePrefixBranch_def)

text \<open>
  Claim C3, amended. \<open>PostReceive\<close> always returns (it never panics), and it returns an error
  if and only if its input is nil or the access check \<open>getRepoCheckAccess\<close> fails; an error
  return leaves the world unchanged. So for a non-nil input that passes the access check
  the call succeeds, whatever the pull-request store answers.
\<close>

theorem PostReceive_error_iff:
  "\<exists>res w'. PostReceive c session repoID principalID inp w = Some (res, w') \<and>
     (isl res \<longleftrightarrow>
        inp = None \<or> isl (getRepoCheckAccess c session repoID PermissionRepoEdit)) \<and>
     (isl res \<longrightarrow> w' = w)"
proof (cases inp)
  case None
  then show ?thesis by (simp add: PostReceive_def)
next
  case (Some input)
  show ?thesis
  proof (cases "getRepoCheckAccess c session repoID PermissionRepoEdit")
    case (Inl err)
    with Some show ?thesis by (simp add: PostReceive_def)
  next
    case (Inr repo)
    obtain out' w' where
      "handlePRMessaging c repo input \<lparr>Messages = []\<rparr>
         (reportReferenceEvents repoID principalID input w) = Some (out', w')"
      using handlePRMessaging_total by blast
    with Some Inr show ?thesis by (simp add: PostReceive_granted)
  qed
qed

theorem PostReceive_error_iff_witness:
  "\<exists>res w'. PostReceive (demo_controller (Inr demo_repo) (\<lambda>f. Inl (Error ''store down''))) ()
       7 3 (Some feature_push) w0 = Some (res, w') \<and> \<not> isl res"
  using PostReceive_error_iff
    [of "demo_controller (Inr demo_repo) (\<lambda>f. Inl (Error ''store down''))" "()" 7 3
        "Some feature_push" w0]
  by (auto simp: demo_controller_sel)

text \<open>
  Claim C3 as stated ("an error if and only if the input is nil") fails: with a non-nil
  input and a failing access check, \<open>PostReceive\<close> returns the error of the access check.
\<close>

theorem PostReceive_access_denied_counterexample:
  "PostReceive (demo_controller (Inl (Error ''forbidden'')) (demo_store [])) () 7 3
     (Some feature_push) w0 = Some (Inl (Error ''forbidden''), w0)"
  by (simp add: PostReceive_def demo_controller_def)

lemma PostReceive_single_branch:
  assumes "RefUpdates inp = [u]"
    and "HasPrefix (Ref u) gitReferenceNamePrefixBranch"
    and "New u \<noteq> NilSHA"
    and "getRepoCheckAccess c session repoID PermissionRepoEdit = Inr repo"
    and "branch = drop (length gitReferenceNamePrefixBranch) (Ref u)"
  shows "PostReceive c session repoID principalID (Some inp) w =
     (let w1 = reportReferenceEvents repoID principalID inp w in
      case pullreqStore_List c (prFilter repo branch) of
        Inl err \<Rightarrow>
          Some (Inr \<lparr>Messages = []\<rparr>,
                w1\<lparr>lookups := lookups w @ [prFilter repo branch],
                   logs := logs w @ [Warn err (lookupFailedMsg branch repo)]\<rparr>)
      | Inr prs \<Rightarrow>
          Some (Inr \<lparr>Messages =
                  (if prs = [] then
                     [createPRMsg branch,
                      ''  '' @ GenerateUICompareURL c (Path repo) (DefaultBranch repo) branch]
                   else openPRsHeader branch #
                     concat (map (\<lambda>pr. [prLine pr, prURLLine c repo pr]) prs))\<rparr>,
                w1\<lparr>lookups := lookups w @ [prFilter repo branch]\<rparr>))"
proof -
  from assms(1-3) have s: "singleBranchPush inp"
    by (simp add: singleBranchPush_iff)
  from assms(1,5) have b: "branchNameOf inp = branch"
    by (simp add: branchNameOf_def)
  show ?thesis
    by (simp add: PostReceive_granted [OF assms(4)] handlePRMessaging_run [OF s] b
        reportReferenceEvents_lookups Let_def split: sum.splits)
qed

text \<open>
  Claim C5. For a push of exactly one branch update with a new SHA other than \<open>NilSHA\<close>,
  when the store finds no open pull request for the branch, the messages of the hook output
  are exactly two: "Create a new PR for branch '<branch>'", and two spaces followed by the
  compare URL from the default branch of the repository to the branch.
\<close>

theorem create_pr_message:
  assumes "RefUpdates inp = [u]"
    and "HasPrefix (Ref u) gitReferenceNamePrefixBranch"
    and "New u \<noteq> NilSHA"
    and "getRepoCheckAccess c session repoID PermissionRepoEdit = Inr repo"
    and "branch = drop (length gitReferenceNamePrefixBranch) (Ref u)"
    and "pullreqStore_List c (prFilter repo branch) = Inr []"
  shows "\<exists>w'. PostReceive c session repoID principalID (Some inp) w =
     Some (Inr \<lparr>Messages =
             [''Create a new PR for branch '' @ [CHR 0x27] @ branch @ [CHR 0x27],
              ''  '' @ GenerateUICompareURL c (Path repo) (DefaultBranch repo) branch]\<rparr>, w')"
  by (simp add: PostReceive_single_branch [OF assms(1-5)] assms(6) createPRMsg_def Let_def)

theorem create_pr_message_witness:
  "\<exists>w'. PostReceive (demo_controller (Inr demo_repo) (demo_store [])) () 7 3
       (Some feature_push) w0 =
     Some (Inr \<lparr>Messages =
             [''Create a new PR for branch '' @ [CHR 0x27] @ ''feature'' @ [CHR 0x27],
              ''  https://git.example/acme/widgets/pulls/compare/main...feature'']\<rparr>, w')"
  using create_pr_message
    [of feature_push "\<lparr>Ref = ''refs/heads/feature'', Old = NilSHA, New = ''abc123''\<rparr>"
        "demo_controller (Inr demo_repo) (demo_store [])" "()" 7 demo_repo "''feature''" 3 w0]
  by (simp add: feature_push_def HasPrefix_def gitReferenceNamePrefixBranch_def NilSHA_def
      demo_controller_def demo_store_def demo_repo_def)

text \<open>
  Claim C6. For the same push, when the store returns a non-empty list of open pull requests,
  the messages of the hook output are the header "Branch '<branch>' has open PRs:" followed,
  for each pull request in the order of the list, by "  (#<number>) <title>" and by four
  spaces and the UI URL of the pull request: \<open>2 * N + 1\<close> messages for \<open>N\<close> pull requests.
\<close>

theorem open_prs_messages:
  assumes "RefUpdates inp = [u]"
    and "HasPrefix (Ref u) gitReferenceNamePrefixBranch"
    and "New u \<noteq> NilSHA"
    and "getRepoCheckAccess c session repoID PermissionRepoEdit = Inr repo"
    and "branch = drop (length gitReferenceNamePrefixBranch) (Ref u)"
    and "pullreqStore_List c (prFilter repo branch) = Inr prs"
    and "prs \<noteq> []"
  shows "\<exists>out w'. PostReceive c session repoID principalID (Some inp) w = Some (Inr out, w') \<and>
     Messages out =
       (''Branch '' @ [CHR 0x27] @ branch @ [CHR 0x27] @ '' has open PRs:'') #
       concat (map (\<lambda>pr. [''  (#'' @ fmt_d (Number pr) @ '') '' @ Title pr,
                           ''    '' @ GenerateUIPRURL c (Path repo) (Number pr)]) prs) \<and>
     length (Messages out) = 2 * length prs + 1"
  by (simp add: PostReceive_single_branch [OF assms(1-5)] assms(6,7) openPRsHeader_def
      prLine_def prURLLine_def Let_def length_concat_pairs)

lemma fmt_d_42: "fmt_d 42 = ''42''"
  by code_simp

lemma fmt_d_43: "fmt_d 43 = ''43''"
  by code_simp

lemma fmt_d_44: "fmt_d 44 = ''44''"
  by code_simp

lemma demo_controller_urls:
  "GenerateUIPRURL (demo_controller access store) path n =
     ''https://git.example/'' @ path @ ''/pulls/'' @ fmt_d n"
  "GenerateUICompareURL (demo_controller access store) path a b =
     ''https://git.example/'' @ path @ ''/pulls/compare/'' @ a @ ''...'' @ b"
  by (simp_all add: demo_controller_def)

lemma feature_push_facts:
  "RefUpdates feature_push = [feature_update]"
  "HasPrefix (Ref feature_update) gitReferenceNamePrefixBranch"
  "New feature_update \<noteq> NilSHA"
  "''feature'' = drop (length gitReferenceNamePrefixBranch) (Ref feature_update)"
  by (simp_all add: feature_push_def feature_update_def HasPrefix_def
      gitReferenceNamePrefixBranch_def NilSHA_def)

theorem open_prs_messages_witness:
  "\<exists>out w'. PostReceive
       (demo_controller (Inr demo_repo) (demo_store [\<lparr>Number = 42, Title = ''Add X''\<rparr>])) () 7 3
       (Some feature_push) w0 = Some (Inr out, w') \<and>
     Messages out =
       [''Branch '' @ [CHR 0x27] @ ''feature'' @ [CHR 0x27] @ '' has open PRs:'',
        ''  (#42) Add X'',
        ''    https://git.example/acme/widgets/pulls/42'']"
proof -
  let ?prs = "[\<lparr>Number = 42, Title = ''Add X''\<rparr>]"
  let ?c = "demo_controller (Inr demo_repo) (demo_store ?prs)"
  have access: "getRepoCheckAccess ?c () 7 PermissionRepoEdit = Inr demo_repo"
    by (simp add: demo_controller_sel)
  have store: "pullreqStore_List ?c (prFilter demo_repo ''feature'') = Inr ?prs"
    by (simp add: demo_controller_sel demo_store_def prFilter_def)
  have ne: "?prs \<noteq> []"
    by simp
  from open_prs_messages [OF feature_push_facts(1-3) access feature_push_facts(4) store ne, of 3 w0]
  obtain out w' where r: "PostReceive ?c () 7 3 (Some feature_push) w0 = Some (Inr out, w')"
    and m: "Messages out =
       (''Branch '' @ [CHR 0x27] @ ''feature'' @ [CHR 0x27] @ '' has open PRs:'') #
       concat (map (\<lambda>pr. [''  (#'' @ fmt_d (Number pr) @ '') '' @ Title pr,
                           ''    '' @ GenerateUIPRURL ?c (Path demo_repo) (Number pr)]) ?prs)"
    by blast
  from m have "Messages out =
       [''Branch '' @ [CHR 0x27] @ ''feature'' @ [CHR 0x27] @ '' has open PRs:'',
        ''  (#42) Add X'',
        ''    https://git.example/acme/widgets/pulls/42'']"
    by (simp add: demo_controller_urls demo_repo_def fmt_d_42)
  with r show ?thesis by blast
qed

text \<open>
  Claim C7, amended. For a push whose only reference update has the prefix \<open>refs/tags/\<close>,
  a new SHA equal to \<open>NilSHA\<close> and an old SHA other than \<open>NilSHA\<close>, exactly one event is
  dispatched, \<open>TagDeleted\<close> with the old SHA of the update as its SHA field;
  \<open>handlePRMessaging\<close> does nothing, and the hook output has no message.
\<close>

theorem tag_delete_event:
  assumes "RefUpdates inp = [u]"
    and "HasPrefix (Ref u) gitReferenceNamePrefixTag"
    and "New u = NilSHA"
    and "Old u \<noteq> NilSHA"
  shows "dispatched (reportReferenceEvents repoID principalID inp w) =
       dispatched w @ [TagDeleted repoID principalID (Ref u) (Old u)] \<and>
     handlePRMessaging c repo inp out w = Some (out, w) \<and>
     (getRepoCheckAccess c session repoID PermissionRepoEdit = Inr repo \<longrightarrow>
        PostReceive c session repoID principalID (Some inp) w =
          Some (Inr \<lparr>Messages = []\<rparr>,
                w\<lparr>dispatched := dispatched w @ [TagDeleted repoID principalID (Ref u) (Old u)]\<rparr>))"
proof -
  from assms(1,3) have skip: "\<not> singleBranchPush inp"
    by (simp add: singleBranchPush_iff)
  from assms have ev: "reportReferenceEvents repoID principalID inp w =
      w\<lparr>dispatched := dispatched w @ [TagDeleted repoID principalID (Ref u) (Old u)]\<rparr>"
    by (simp add: reportReferenceEvents_frame newEvents_tag)
  show ?thesis
    by (simp add: ev PostReceive_granted handlePRMessaging_skip [OF skip])
qed

theorem tag_delete_event_witness:
  "PostReceive (demo_controller (Inr demo_repo) (demo_store [])) () 7 3
     (Some \<lparr>RefUpdates = [tag_delete_update]\<rparr>) w0 =
   Some (Inr \<lparr>Messages = []\<rparr>,
         w0\<lparr>dispatched := [TagDeleted 7 3 ''refs/tags/v1.0'' ''abc123'']\<rparr>)"
proof -
  have 1: "RefUpdates \<lparr>RefUpdates = [tag_delete_update]\<rparr> = [tag_delete_update]"
    by simp
  have 2: "HasPrefix (Ref tag_delete_update) gitReferenceNamePrefixTag"
    by (simp add: tag_delete_update_def HasPrefix_def gitReferenceNamePrefixTag_def)
  have 3: "New tag_delete_update = NilSHA"
    by (simp add: tag_delete_update_def)
  have 4: "Old tag_delete_update \<noteq> NilSHA"
    by (simp add: tag_delete_update_def NilSHA_def)
  from tag_delete_event [OF 1 2 3 4, of 7 3 w0 "demo_controller (Inr demo_repo) (demo_store [])"
      demo_repo "\<lparr>Messages = []\<rparr>" "()"]
  show ?thesis
    by (simp add: demo_controller_sel tag_delete_update_def w0_def)
qed

text \<open>
  Claim C7 as stated (tag prefix and new SHA equal to \<open>NilSHA\<close> alone) fails when the old
  SHA is \<open>NilSHA\<close> as well: the event dispatched is \<open>TagCreated\<close>, not \<open>TagDeleted\<close>.
\<close>

theorem tag_nil_to_nil_counterexample:
  "dispatched (reportReferenceEvents 7 3 \<lparr>RefUpdates = [tag_nil_update]\<rparr> w0) =
     [TagCreated 7 3 ''refs/tags/v1.0'' NilSHA] \<and>
   dispatched (reportReferenceEvents 7 3 \<lparr>RefUpdates = [tag_nil_update]\<rparr> w0) \<noteq>
     [TagDeleted 7 3 ''refs/tags/v1.0'' (Old tag_nil_update)] \<and>
   HasPrefix (Ref tag_nil_update) gitReferenceNamePrefixTag \<and>
   New tag_nil_update = NilSHA"
  by (simp add: reportReferenceEvents_def reportReferenceEvent_def reportTagEvent_def
      gitReporter_def tag_nil_update_def w0_def HasPrefix_def
      gitReferenceNamePrefixBranch_def gitReferenceNamePrefixTag_def)

text \<open>
  Claim C8. When the query of the pull-request store fails, \<open>handlePRMessaging\<close> writes one
  warning that carries the error to the log and leaves the output as it is; the hook call
  still succeeds, with no message.
\<close>

theorem pr_lookup_failure_is_logged:
  assumes "RefUpdates inp = [u]"
    and "HasPrefix (Ref u) gitReferenceNamePrefixBranch"
    and "New u \<noteq> NilSHA"
    and "branch = drop (length gitReferenceNamePrefixBranch) (Ref u)"
    and "pullreqStore_List c (prFilter repo branch) = Inl err"
  shows "handlePRMessaging c repo inp out w =
       Some (out, w\<lparr>lookups := lookups w @ [prFilter repo branch],
                    logs := logs w @ [Warn err (lookupFailedMsg branch repo)]\<rparr>) \<and>
     (getRepoCheckAccess c session repoID PermissionRepoEdit = Inr repo \<longrightarrow>
        (\<exists>w'. PostReceive c session repoID principalID (Some inp) w =
                 Some (Inr \<lparr>Messages = []\<rparr>, w') \<and>
              logs w' = logs w @ [Warn err (lookupFailedMsg branch repo)]))"
proof -
  from assms(1-3) have s: "singleBranchPush inp"
    by (simp add: singleBranchPush_iff)
  from assms(1,4) have b: "branchNameOf inp = branch"
    by (simp add: branchNameOf_def)
  have 1: "handlePRMessaging c repo inp out w =
       Some (out, w\<lparr>lookups := lookups w @ [prFilter repo branch],
                    logs := logs w @ [Warn err (lookupFailedMsg branch repo)]\<rparr>)"
    by (simp add: handlePRMessaging_run [OF s] b assms(5))
  have 2: "getRepoCheckAccess c session repoID PermissionRepoEdit = Inr repo \<Longrightarrow>
      \<exists>w'. PostReceive c session repoID principalID (Some inp) w =
                 Some (Inr \<lparr>Messages = []\<rparr>, w') \<and>
              logs w' = logs w @ [Warn err (lookupFailedMsg branch repo)]"
    by (simp add: PostReceive_single_branch [OF assms(1-3) _ assms(4)] assms(5) Let_def
        reportReferenceEvents_lookups)
  from 1 2 show ?thesis by blast
qed

theorem pr_lookup_failure_is_logged_witness:
  "\<exists>w'. PostReceive (demo_controller (Inr demo_repo) (\<lambda>f. Inl (Error ''store down''))) () 7 3
       (Some feature_push) w0 = Some (Inr \<lparr>Messages = []\<rparr>, w') \<and>
     logs w' = [Warn (Error ''store down'') (lookupFailedMsg ''feature'' demo_repo)]"
proof -
  let ?c = "demo_controller (Inr demo_repo) (\<lambda>f. Inl (Error ''store down''))"
  have access: "getRepoCheckAccess ?c () 7 PermissionRepoEdit = Inr demo_repo"
    by (simp add: demo_controller_sel)
  have store: "pullreqStore_List ?c (prFilter demo_repo ''feature'') = Inl (Error ''store down'')"
    by (simp add: demo_controller_sel)
  from pr_lookup_failure_is_logged [OF feature_push_facts store, of "\<lparr>Messages = []\<rparr>" w0 "()" 7 3]
    access
  show ?thesis
    by (simp add: w0_def)
qed

text \<open>
  Claim C10, amended. The query of the pull-request store asks for page 1 of size 2, of the
  open pull requests, in ascending order of creation. The block of open pull requests lists
  every pull request the store returns for that query, in \<open>2 * N + 1\<close> messages for \<open>N\<close> of
  them; the hook itself does not cut the list. When the store returns, for the filter sent,
  no more pull requests than the size asked for, the block lists at most two of them and
  at most five messages are appended to the output.
\<close>

theorem pr_lookup_requests_two:
  assumes "RefUpdates inp = [u]"
    and "HasPrefix (Ref u) gitReferenceNamePrefixBranch"
    and "New u \<noteq> NilSHA"
    and "branch = drop (length gitReferenceNamePrefixBranch) (Ref u)"
  shows "\<exists>out' w'. handlePRMessaging c repo inp out w = Some (out', w') \<and>
     lookups w' = lookups w @ [prFilter repo branch] \<and>
     prFilter repo branch =
       \<lparr>Page = 1, Size = 2, SourceRepoID = ID repo, SourceBranch = branch,
        States = [PullReqStateOpen], Order = OrderAsc, Sort = PullReqSortCreated\<rparr> \<and>
     (case pullreqStore_List c (prFilter repo branch) of
        Inl err \<Rightarrow> Messages out' = Messages out
      | Inr prs \<Rightarrow>
          (prs \<noteq> [] \<longrightarrow>
             Messages out' = Messages out @ openPRsHeader branch #
               concat (map (\<lambda>pr. [prLine pr, prURLLine c repo pr]) prs) \<and>
             length (Messages out') = length (Messages out) + 2 * length prs + 1) \<and>
          (length prs \<le> nat (Size (prFilter repo branch)) \<longrightarrow>
             length prs \<le> 2 \<and> length (Messages out') \<le> length (Messages out) + 5))"
proof -
  let ?f = "prFilter repo branch"
  from assms(1-3) have s: "singleBranchPush inp"
    by (simp add: singleBranchPush_iff)
  from assms(1,4) have b: "branchNameOf inp = branch"
    by (simp add: branchNameOf_def)
  note run = handlePRMessaging_run [OF s, of c repo out w, unfolded b]
  have f: "?f = \<lparr>Page = 1, Size = 2, SourceRepoID = ID repo, SourceBranch = branch,
        States = [PullReqStateOpen], Order = OrderAsc, Sort = PullReqSortCreated\<rparr>"
    by (simp add: prFilter_def)
  have sz: "nat (Size ?f) = 2"
    by (simp add: prFilter_def)
  show ?thesis
  proof (cases "pullreqStore_List c ?f")
    case (Inl err)
    let ?w = "w\<lparr>lookups := lookups w @ [?f], logs := logs w @ [Warn err (lookupFailedMsg branch repo)]\<rparr>"
    have "handlePRMessaging c repo inp out w = Some (out, ?w)"
      by (simp add: run Inl)
    moreover have "lookups ?w = lookups w @ [?f]"
      by simp
    moreover have "case pullreqStore_List c ?f of
        Inl err \<Rightarrow> Messages out = Messages out
      | Inr prs \<Rightarrow>
          (prs \<noteq> [] \<longrightarrow>
             Messages out = Messages out @ openPRsHeader branch #
               concat (map (\<lambda>pr. [prLine pr, prURLLine c repo pr]) prs) \<and>
             length (Messages out) = length (Messages out) + 2 * length prs + 1) \<and>
          (length prs \<le> nat (Size ?f) \<longrightarrow>
             length prs \<le> 2 \<and> length (Messages out) \<le> length (Messages out) + 5)"
      by (simp only: Inl sum.case)
    ultimately show ?thesis
      using f by (intro exI [of _ out] exI [of _ ?w] conjI)
  next
    case (Inr prs)
    let ?msgs = "if prs = [] then
                     [createPRMsg branch,
                      ''  '' @ GenerateUICompareURL c (Path repo) (DefaultBranch repo) branch]
                   else openPRsHeader branch #
                     concat (map (\<lambda>pr. [prLine pr, prURLLine c repo pr]) prs)"
    let ?out = "out\<lparr>Messages := Messages out @ ?msgs\<rparr>"
    let ?w = "w\<lparr>lookups := lookups w @ [?f]\<rparr>"
    have r: "handlePRMessaging c repo inp out w = Some (?out, ?w)"
      by (simp add: run Inr)
    have l: "lookups ?w = lookups w @ [?f]"
      by simp
    have m: "prs \<noteq> [] \<longrightarrow>
             Messages ?out = Messages out @ openPRsHeader branch #
               concat (map (\<lambda>pr. [prLine pr, prURLLine c repo pr]) prs) \<and>
             length (Messages ?out) = length (Messages out) + 2 * length prs + 1"
      by (simp add: length_concat_pairs)
    have n: "length prs \<le> nat (Size ?f) \<longrightarrow>
             length prs \<le> 2 \<and> length (Messages ?out) \<le> length (Messages out) + 5"
      by (simp add: sz length_concat_pairs)
    from m n have cs: "case pullreqStore_List c ?f of
        Inl err \<Rightarrow> Messages ?out = Messages out
      | Inr prs \<Rightarrow>
          (prs \<noteq> [] \<longrightarrow>
             Messages ?out = Messages out @ openPRsHeader branch #
               concat (map (\<lambda>pr. [prLine pr, prURLLine c repo pr]) prs) \<and>
             length (Messages ?out) = length (Messages out) + 2 * length prs + 1) \<and>
          (length prs \<le> nat (Size ?f) \<longrightarrow>
             length prs \<le> 2 \<and> length (Messages ?out) \<le> length (Messages out) + 5)"
      by (simp only: Inr sum.case) 
    from r l f cs show ?thesis
      by (intro exI [of _ ?out] exI [of _ ?w] conjI)
  qed
qed

theorem pr_lookup_requests_two_witness:
  "\<exists>out' w'. handlePRMessaging (demo_controller (Inr demo_repo) (demo_store three_prs))
       demo_repo feature_push \<lparr>Messages = []\<rparr> w0 = Some (out', w') \<and>
     lookups w' = [prFilter demo_repo ''feature''] \<and>
     Messages out' =
       [''Branch '' @ [CHR 0x27] @ ''feature'' @ [CHR 0x27] @ '' has open PRs:'',
        ''  (#42) Add X'',
        ''    https://git.example/acme/widgets/pulls/42'',
        ''  (#43) Add Y'',
        ''    https://git.example/acme/widgets/pulls/43''] \<and>
     length (Messages out') \<le> 5"
proof -
  let ?c = "demo_controller (Inr demo_repo) (demo_store three_prs)"
  let ?two = "[\<lparr>Number = 42, Title = ''Add X''\<rparr>, \<lparr>Number = 43, Title = ''Add Y''\<rparr>]"
  have store: "pullreqStore_List ?c (prFilter demo_repo ''feature'') = Inr ?two"
    by (simp add: demo_controller_sel demo_store_def prFilter_def three_prs_def)
  have paged: "length ?two \<le> nat (Size (prFilter demo_repo ''feature''))"
    by (simp add: prFilter_def)
  from pr_lookup_requests_two [OF feature_push_facts, of "?c" demo_repo "\<lparr>Messages = []\<rparr>" w0]
  obtain out' w' where
    r: "handlePRMessaging ?c demo_repo feature_push \<lparr>Messages = []\<rparr> w0 = Some (out', w')"
    and l: "lookups w' = lookups w0 @ [prFilter demo_repo ''feature'']"
    and cs: "case pullreqStore_List ?c (prFilter demo_repo ''feature'') of
        Inl err \<Rightarrow> Messages out' = Messages \<lparr>Messages = []\<rparr>
      | Inr prs \<Rightarrow>
          (prs \<noteq> [] \<longrightarrow>
             Messages out' = Messages \<lparr>Messages = []\<rparr> @ openPRsHeader ''feature'' #
               concat (map (\<lambda>pr. [prLine pr, prURLLine ?c demo_repo pr]) prs) \<and>
             length (Messages out') = length (Messages \<lparr>Messages = []\<rparr>) + 2 * length prs + 1) \<and>
          (length prs \<le> nat (Size (prFilter demo_repo ''feature'')) \<longrightarrow>
             length prs \<le> 2 \<and>
             length (Messages out') \<le> length (Messages \<lparr>Messages = []\<rparr>) + 5)"
    by blast
  from cs paged have m: "Messages out' = openPRsHeader ''feature'' #
               concat (map (\<lambda>pr. [prLine pr, prURLLine ?c demo_repo pr]) ?two)"
    and n: "length (Messages out') \<le> 5"
    by (simp_all add: store)
  have "Messages out' =
       [''Branch '' @ [CHR 0x27] @ ''feature'' @ [CHR 0x27] @ '' has open PRs:'',
        ''  (#42) Add X'',
        ''    https://git.example/acme/widgets/pulls/42'',
        ''  (#43) Add Y'',
        ''    https://git.example/acme/widgets/pulls/43'']"
    by (simp add: m openPRsHeader_def prLine_def prURLLine_def demo_controller_urls
        demo_repo_def fmt_d_42 fmt_d_43)
  with r l n show ?thesis
    by (simp add: w0_def)
qed

text \<open>
  Claim C10 as stated (at most two pull requests and five lines, for any number of open
  pull requests) fails with a store that does not page: it is asked for size 2, returns
  three pull requests, and the hook lists all three, in seven messages.
\<close>

theorem unpaged_store_seven_lines_counterexample:
  "handlePRMessaging (demo_controller (Inr demo_repo) (unpaged_store three_prs))
       demo_repo feature_push \<lparr>Messages = []\<rparr> w0 =
     Some (\<lparr>Messages =
        [''Branch '' @ [CHR 0x27] @ ''feature'' @ [CHR 0x27] @ '' has open PRs:'',
         ''  (#42) Add X'',
         ''    https://git.example/acme/widgets/pulls/42'',
         ''  (#43) Add Y'',
         ''    https://git.example/acme/widgets/pulls/43'',
         ''  (#44) Add Z'',
         ''    https://git.example/acme/widgets/pulls/44'']\<rparr>,
       w0\<lparr>lookups := [prFilter demo_repo ''feature'']\<rparr>) \<and>
   Size (prFilter demo_repo ''feature'') = 2 \<and>
   \<not> length
        [''Branch '' @ [CHR 0x27] @ ''feature'' @ [CHR 0x27] @ '' has open PRs:'',
         ''  (#42) Add X'',
         ''    https://git.example/acme/widgets/pulls/42'',
         ''  (#43) Add Y'',
         ''    https://git.example/acme/widgets/pulls/43'',
         ''  (#44) Add Z'',
         ''    https://git.example/acme/widgets/pulls/44''] \<le> 5"
proof -
  let ?c = "demo_controller (Inr demo_repo) (unpaged_store three_prs)"
  from feature_push_facts(1-3) have s: "singleBranchPush feature_push"
    by (simp add: singleBranchPush_iff)
  have b: "branchNameOf feature_push = ''feature''"
    by (simp add: branchNameOf_def feature_push_facts(1) feature_push_facts(4) [symmetric])
  have store: "pullreqStore_List ?c (prFilter demo_repo ''feature'') = Inr three_prs"
    by (simp add: demo_controller_sel unpaged_store_def)
  have ne: "three_prs \<noteq> []"
    by (simp add: three_prs_def)
  have lines: "openPRsHeader ''feature'' #
       concat (map (\<lambda>pr. [prLine pr, prURLLine ?c demo_repo pr]) three_prs) =
        [''Branch '' @ [CHR 0x27] @ ''feature'' @ [CHR 0x27] @ '' has open PRs:'',
         ''  (#42) Add X'',
         ''    https://git.example/acme/widgets/pulls/42'',
         ''  (#43) Add Y'',
         ''    https://git.example/acme/widgets/pulls/43'',
         ''  (#44) Add Z'',
         ''    https://git.example/acme/widgets/pulls/44'']"
    by (simp add: three_prs_def openPRsHeader_def prLine_def prURLLine_def demo_controller_urls
        demo_repo_def fmt_d_42 fmt_d_43 fmt_d_44)
  have "handlePRMessaging ?c demo_repo feature_push \<lparr>Messages = []\<rparr> w0 =
      Some (\<lparr>Messages = openPRsHeader ''feature'' #
                concat (map (\<lambda>pr. [prLine pr, prURLLine ?c demo_repo pr]) three_prs)\<rparr>,
            w0\<lparr>lookups := [prFilter demo_repo ''feature'']\<rparr>)"
    by (simp add: handlePRMessaging_run [OF s] b store ne w0_def)
  then show ?thesis
    by (simp add: lines prFilter_def)
qed

end
